theory Spec2Isabelle
  imports Complex_Main
begin

section \<open>Errors and the random source\<close>

text \<open>
  The notebook draws every random number through \<open>scipy.stats\<close>
  (\<open>norm.rvs\<close>, \<open>binom.rvs\<close>, \<open>beta.rvs\<close>, \<open>poisson.rvs\<close>), which reads and advances
  the process-wide generator of numpy. The library is not part of the repository, so the
  four samplers are parameters of the model: each maps its distribution parameters and
  the generator state \<open>'g\<close> to a draw and the next generator state. The generator state
  is threaded explicitly through every call, in the order of the calls of the source.

  Floating-point numbers (\<open>np.float\<close>) are modelled as reals and \<open>np.int\<close> as unbounded
  integers: rounding, underflow and NaN are outside the model.
\<close>

datatype family = Normal | Bernoulli | Beta | Poisson

datatype error = InvalidParameter family | IndexError

record 'g random_source =
  norm_rvs :: "real \<Rightarrow> 'g \<Rightarrow> real \<times> 'g"
  binom_rvs :: "real \<Rightarrow> 'g \<Rightarrow> int \<times> 'g"
  beta_rvs :: "real \<Rightarrow> real \<Rightarrow> 'g \<Rightarrow> real \<times> 'g"
  poisson_rvs :: "real \<Rightarrow> 'g \<Rightarrow> int \<times> 'g"

text \<open>
  Modelled from the spec: the argument check of the draws, which lives in the library and
  not under src/. Section 4.1 of the specification: degenerate parameters
  (\<open>sd \<le> 0\<close>, \<open>a \<le> 0\<close>, \<open>b \<le> 0\<close>, \<open>rate < 0\<close>) fail with \<open>InvalidParameter\<close>; a
  Bernoulli probability outside \<open>[0, 1]\<close> is rejected in the same way. A failed check
  raises before the generator is touched.
\<close>

definition norm_draw :: "'g random_source \<Rightarrow> real \<Rightarrow> 'g \<Rightarrow> (error + real) \<times> 'g" where
  "norm_draw rs scale g =
     (if scale \<le> 0 then (Inl (InvalidParameter Normal), g)
      else (case norm_rvs rs scale g of (v, g') \<Rightarrow> (Inr v, g')))"

definition binom_draw :: "'g random_source \<Rightarrow> real \<Rightarrow> 'g \<Rightarrow> (error + int) \<times> 'g" where
  "binom_draw rs p g =
     (if p < 0 \<or> 1 < p then (Inl (InvalidParameter Bernoulli), g)
      else (case binom_rvs rs p g of (v, g') \<Rightarrow> (Inr v, g')))"

definition beta_draw :: "'g random_source \<Rightarrow> real \<Rightarrow> real \<Rightarrow> 'g \<Rightarrow> (error + real) \<times> 'g" where
  "beta_draw rs a b g =
     (if a \<le> 0 \<or> b \<le> 0 then (Inl (InvalidParameter Beta), g)
      else (case beta_rvs rs a b g of (v, g') \<Rightarrow> (Inr v, g')))"

definition poisson_draw :: "'g random_source \<Rightarrow> real \<Rightarrow> 'g \<Rightarrow> (error + int) \<times> 'g" where
  "poisson_draw rs mu g =
     (if mu < 0 then (Inl (InvalidParameter Poisson), g)
      else (case poisson_rvs rs mu g of (v, g') \<Rightarrow> (Inr v, g')))"

section \<open>Loops and arrays\<close>

text \<open>
  \<open>for i in range(1, niter): body\<close> runs the body for each index in order. An exception
  raised by the body leaves the loop at once; the variables of the notebook keep the
  values they had at the raise, so the result of a loop is the state reached together
  with the error, if any.
\<close>

fun for_loop :: "(nat \<Rightarrow> 's \<Rightarrow> 's \<times> error option) \<Rightarrow> nat list \<Rightarrow> 's \<Rightarrow> 's \<times> error option" where
  "for_loop body [] s = (s, None)"
| "for_loop body (i # is) s =
     (case body i s of
        (s', None) \<Rightarrow> for_loop body is s'
      | (s', Some e) \<Rightarrow> (s', Some e))"

text \<open>
  The read \<open>A[i-1]\<close> of an array: index \<open>-1\<close> is the last element in Python, which is
  what \<open>i = 0\<close> would read. The loops below only run with \<open>1 \<le> i\<close>.
\<close>

definition at_prev :: "'a list \<Rightarrow> nat \<Rightarrow> 'a" where
  "at_prev A i = (if i = 0 then last A else A ! (i - 1))"

section \<open>Metropolis-Hastings: Normal-Normal conjugacy\<close>

text \<open>
  \<open>norm.pdf(x, loc, scale)\<close>: the density of the Normal distribution with mean \<open>loc\<close> and
  standard deviation \<open>scale\<close>, the standard density at \<open>(x - loc) / scale\<close> divided by
  \<open>scale\<close>. The formula is the library's value for \<open>0 < scale\<close> only.
\<close>

definition norm_pdf :: "real \<Rightarrow> real \<Rightarrow> real \<Rightarrow> real" where
  "norm_pdf x loc scale = exp (- (((x - loc) / scale)\<^sup>2) / 2) / sqrt (2 * pi) / scale"

text \<open>
  The arithmetic of the acceptance ratio is kept as a term, so that the operations of
  the source line are visible, and evaluated over the reals.
\<close>

datatype expr =
    Num real
  | NormPdf expr expr expr
  | Mul expr expr
  | Div expr expr
  | Add expr expr
  | Sub expr expr
  | Ln expr
  | Exp expr
  | Min expr expr

fun eval :: "expr \<Rightarrow> real" where
  "eval (Num v) = v"
| "eval (NormPdf e loc scale) = norm_pdf (eval e) (eval loc) (eval scale)"
| "eval (Mul e1 e2) = eval e1 * eval e2"
| "eval (Div e1 e2) = eval e1 / eval e2"
| "eval (Add e1 e2) = eval e1 + eval e2"
| "eval (Sub e1 e2) = eval e1 - eval e2"
| "eval (Ln e) = ln (eval e)"
| "eval (Exp e) = exp (eval e)"
| "eval (Min e1 e2) = min (eval e1) (eval e2)"

text \<open>
  \<^verbatim>\<open>r = norm.pdf(y, loc=theta_new, scale=sigma) * norm.pdf(theta_new, loc=mu, scale=tau) /
      (norm.pdf(y, loc=Theta[i-1], scale=sigma) * norm.pdf(Theta[i-1], loc=mu, scale=tau))\<close>
  and the argument \<open>min(r, 1)\<close> of the coin flip.
\<close>

definition r_expr :: "real \<Rightarrow> real \<Rightarrow> real \<Rightarrow> real \<Rightarrow> real \<Rightarrow> real \<Rightarrow> expr" where
  "r_expr y sigma mu tau theta_prev theta_new =
     Div (Mul (NormPdf (Num y) (Num theta_new) (Num sigma))
              (NormPdf (Num theta_new) (Num mu) (Num tau)))
         (Mul (NormPdf (Num y) (Num theta_prev) (Num sigma))
              (NormPdf (Num theta_prev) (Num mu) (Num tau)))"

definition accept_expr :: "real \<Rightarrow> real \<Rightarrow> real \<Rightarrow> real \<Rightarrow> real \<Rightarrow> real \<Rightarrow> expr" where
  "accept_expr y sigma mu tau theta_prev theta_new =
     Min (r_expr y sigma mu tau theta_prev theta_new) (Num 1)"

definition mh_ratio :: "real \<Rightarrow> real \<Rightarrow> real \<Rightarrow> real \<Rightarrow> real \<Rightarrow> real \<Rightarrow> real" where
  "mh_ratio y sigma mu tau theta_prev theta_new =
     eval (r_expr y sigma mu tau theta_prev theta_new)"

definition mh_accept :: "real \<Rightarrow> real \<Rightarrow> real \<Rightarrow> real \<Rightarrow> real \<Rightarrow> real \<Rightarrow> real" where
  "mh_accept y sigma mu tau theta_prev theta_new =
     eval (accept_expr y sigma mu tau theta_prev theta_new)"

text \<open>
  The body of the loop, from the state \<open>Theta[i-1]\<close> to the value stored in \<open>Theta[i]\<close>:
  propose, compute the ratio, flip the coin, keep the proposal when the flip is 1.
\<close>

definition mh_step ::
  "real \<Rightarrow> real \<Rightarrow> real \<Rightarrow> real \<Rightarrow> real \<Rightarrow> 'g random_source \<Rightarrow> real \<Rightarrow> 'g \<Rightarrow> (error + real) \<times> 'g" where
  "mh_step y sigma mu tau d rs theta_prev g =
     (case norm_draw rs d g of
        (Inl e, g1) \<Rightarrow> (Inl e, g1)
      | (Inr eps, g1) \<Rightarrow>
          (let theta_new = theta_prev + eps
           in (case binom_draw rs (mh_accept y sigma mu tau theta_prev theta_new) g1 of
                 (Inl e, g2) \<Rightarrow> (Inl e, g2)
               | (Inr flip, g2) \<Rightarrow> (Inr (if flip = 1 then theta_new else theta_prev), g2))))"

definition mh_iter ::
  "real \<Rightarrow> real \<Rightarrow> real \<Rightarrow> real \<Rightarrow> real \<Rightarrow> 'g random_source \<Rightarrow> nat \<Rightarrow>
     real list \<times> 'g \<Rightarrow> (real list \<times> 'g) \<times> error option" where
  "mh_iter y sigma mu tau d rs i s =
     (case s of (Theta, g) \<Rightarrow>
        if length Theta \<le> i then ((Theta, g), Some IndexError)
        else (case mh_step y sigma mu tau d rs (at_prev Theta i) g of
                (Inl e, g') \<Rightarrow> ((Theta, g'), Some e)
              | (Inr v, g') \<Rightarrow> ((Theta[i := v], g'), None)))"

text \<open>
  \<open>Theta = np.zeros(niter)\<close>, \<open>Theta[0] = y\<close> (an IndexError on an empty array), then the
  loop over \<open>range(1, niter)\<close>.
\<close>

definition mh_run ::
  "real \<Rightarrow> real \<Rightarrow> real \<Rightarrow> real \<Rightarrow> real \<Rightarrow> nat \<Rightarrow> 'g random_source \<Rightarrow> 'g \<Rightarrow>
     (real list \<times> 'g) \<times> error option" where
  "mh_run y sigma mu tau d niter rs g =
     (let Theta = replicate niter 0
      in if niter = 0 then ((Theta, g), Some IndexError)
         else for_loop (mh_iter y sigma mu tau d rs) [1..<niter] (Theta[0 := y], g))"

text \<open>
  One transition of the chain on the pair of the current state and the generator, as the
  loop body performs it when no draw is rejected by the argument check: the draw
  \<open>norm.rvs(scale=d)\<close>, the candidate, the coin \<open>binom.rvs(n=1, p=min(r, 1))\<close>.
\<close>

definition mh_transition ::
  "real \<Rightarrow> real \<Rightarrow> real \<Rightarrow> real \<Rightarrow> real \<Rightarrow> 'g random_source \<Rightarrow> real \<times> 'g \<Rightarrow> real \<times> 'g" where
  "mh_transition y sigma mu tau d rs s =
     (case s of (theta_prev, g) \<Rightarrow>
        (case norm_rvs rs d g of (eps, g1) \<Rightarrow>
           (let theta_new = theta_prev + eps
            in (case binom_rvs rs (mh_accept y sigma mu tau theta_prev theta_new) g1 of
                  (flip, g2) \<Rightarrow> (if flip = 1 then theta_new else theta_prev, g2)))))"

text \<open>
  The pairs of chain state and generator state that the transitions visit, starting from
  \<open>Theta[0] = y\<close> and the generator state at the start of the run.
\<close>

definition mh_chain ::
  "real \<Rightarrow> real \<Rightarrow> real \<Rightarrow> real \<Rightarrow> real \<Rightarrow> 'g random_source \<Rightarrow> 'g \<Rightarrow> nat \<Rightarrow> real \<times> 'g" where
  "mh_chain y sigma mu tau d rs g k = (mh_transition y sigma mu tau d rs ^^ k) (y, g)"

subsection \<open>The acceptance probability as the text of the notebook states it\<close>

text \<open>
  The notebook gives the stationary density up to a constant,
  \<open>exp(-(y - \<theta>)\<^sup>2 / (2 \<sigma>\<^sup>2)) exp(-(\<theta> - \<mu>)\<^sup>2 / (2 \<tau>\<^sup>2))\<close>, the density of proposing \<open>x'\<close> from
  \<open>x\<close>, \<open>exp(-(x' - x)\<^sup>2 / (2 d\<^sup>2)) / (sqrt(2 \<pi>) d)\<close>, and the acceptance probability
  \<open>min(s(x') p(x', x) / (s(x) p(x, x')), 1)\<close>. The specification computes the same
  probability through logarithms. These definitions follow the two texts, not the code.
\<close>

definition spec_target_density :: "real \<Rightarrow> real \<Rightarrow> real \<Rightarrow> real \<Rightarrow> real \<Rightarrow> real" where
  "spec_target_density y sigma mu tau theta =
     exp (- (y - theta)\<^sup>2 / (2 * sigma\<^sup>2)) * exp (- (theta - mu)\<^sup>2 / (2 * tau\<^sup>2))"

definition spec_proposal_density :: "real \<Rightarrow> real \<Rightarrow> real \<Rightarrow> real" where
  "spec_proposal_density d x x' = 1 / (sqrt (2 * pi) * d) * exp (- (x' - x)\<^sup>2 / (2 * d\<^sup>2))"

definition spec_log_density :: "real \<Rightarrow> real \<Rightarrow> real \<Rightarrow> real" where
  "spec_log_density d x x' = ln (spec_proposal_density d x x')"

definition spec_acceptance_full :: "real \<Rightarrow> real \<Rightarrow> real \<Rightarrow> real \<Rightarrow> real \<Rightarrow> real \<Rightarrow> real \<Rightarrow> real" where
  "spec_acceptance_full y sigma mu tau d x x' =
     min (spec_target_density y sigma mu tau x' * spec_proposal_density d x' x /
          (spec_target_density y sigma mu tau x * spec_proposal_density d x x')) 1"

definition spec_log_r :: "real \<Rightarrow> real \<Rightarrow> real \<Rightarrow> real \<Rightarrow> real \<Rightarrow> real \<Rightarrow> real \<Rightarrow> real" where
  "spec_log_r y sigma mu tau d current candidate =
     (ln (spec_target_density y sigma mu tau candidate) + spec_log_density d candidate current)
     - (ln (spec_target_density y sigma mu tau current) + spec_log_density d current candidate)"

definition spec_acceptance_log :: "real \<Rightarrow> real \<Rightarrow> real \<Rightarrow> real \<Rightarrow> real \<Rightarrow> real \<Rightarrow> real \<Rightarrow> real" where
  "spec_acceptance_log y sigma mu tau d current candidate =
     min 1 (exp (spec_log_r y sigma mu tau d current candidate))"

subsection \<open>Reading the operations off the term of the source\<close>

text \<open>
  \<open>bare_density e\<close>: a density occurs in \<open>e\<close> outside a logarithm.
  \<open>density_quotient e\<close>: some division of \<open>e\<close> has such a density in an operand.
  \<open>log_domain e\<close>: \<open>e\<close> takes a logarithm or an exponential somewhere.
\<close>

fun bare_density :: "expr \<Rightarrow> bool" where
  "bare_density (Num v) = False"
| "bare_density (NormPdf e loc scale) = True"
| "bare_density (Mul e1 e2) = (bare_density e1 \<or> bare_density e2)"
| "bare_density (Div e1 e2) = (bare_density e1 \<or> bare_density e2)"
| "bare_density (Add e1 e2) = (bare_density e1 \<or> bare_density e2)"
| "bare_density (Sub e1 e2) = (bare_density e1 \<or> bare_density e2)"
| "bare_density (Ln e) = False"
| "bare_density (Exp e) = bare_density e"
| "bare_density (Min e1 e2) = (bare_density e1 \<or> bare_density e2)"

fun density_quotient :: "expr \<Rightarrow> bool" where
  "density_quotient (Num v) = False"
| "density_quotient (NormPdf e loc scale) =
     (density_quotient e \<or> density_quotient loc \<or> density_quotient scale)"
| "density_quotient (Mul e1 e2) = (density_quotient e1 \<or> density_quotient e2)"
| "density_quotient (Div e1 e2) =
     (bare_density e1 \<or> bare_density e2 \<or> density_quotient e1 \<or> density_quotient e2)"
| "density_quotient (Add e1 e2) = (density_quotient e1 \<or> density_quotient e2)"
| "density_quotient (Sub e1 e2) = (density_quotient e1 \<or> density_quotient e2)"
| "density_quotient (Ln e) = density_quotient e"
| "density_quotient (Exp e) = density_quotient e"
| "density_quotient (Min e1 e2) = (density_quotient e1 \<or> density_quotient e2)"

fun log_domain :: "expr \<Rightarrow> bool" where
  "log_domain (Num v) = False"
| "log_domain (NormPdf e loc scale) = (log_domain e \<or> log_domain loc \<or> log_domain scale)"
| "log_domain (Mul e1 e2) = (log_domain e1 \<or> log_domain e2)"
| "log_domain (Div e1 e2) = (log_domain e1 \<or> log_domain e2)"
| "log_domain (Add e1 e2) = (log_domain e1 \<or> log_domain e2)"
| "log_domain (Sub e1 e2) = (log_domain e1 \<or> log_domain e2)"
| "log_domain (Ln e) = True"
| "log_domain (Exp e) = True"
| "log_domain (Min e1 e2) = (log_domain e1 \<or> log_domain e2)"

section \<open>Gibbs: chicken-egg with unknown parameters\<close>

text \<open>
  The variables of the cell: the arrays \<open>P\<close> and \<open>N\<close>, the loop variable \<open>i\<close> (unbound
  before the loop), and the generator.
\<close>

type_synonym 'g gibbs_state = "real list \<times> int list \<times> nat option \<times> 'g"

text \<open>
  \<^verbatim>\<open>P[i] = beta.rvs(a=x+a, b=N[i-1]-x+b)\<close>
  \<^verbatim>\<open>N[i] = x + poisson.rvs(mu=l*(1-P[i-1]))\<close>
  The second line reads \<open>P[i-1]\<close> after the first has stored \<open>P[i]\<close>.
\<close>

definition gibbs_iter ::
  "int \<Rightarrow> real \<Rightarrow> real \<Rightarrow> real \<Rightarrow> 'g random_source \<Rightarrow> nat \<Rightarrow>
     'g gibbs_state \<Rightarrow> 'g gibbs_state \<times> error option" where
  "gibbs_iter x l a b rs i s =
     (case s of (P, N, _, g) \<Rightarrow>
        if length P \<le> i \<or> length N \<le> i then ((P, N, Some i, g), Some IndexError)
        else (case beta_draw rs (of_int x + a) (of_int (at_prev N i - x) + b) g of
                (Inl e, g1) \<Rightarrow> ((P, N, Some i, g1), Some e)
              | (Inr p, g1) \<Rightarrow>
                  (let P' = P[i := p]
                   in (case poisson_draw rs (l * (1 - at_prev P' i)) g1 of
                         (Inl e, g2) \<Rightarrow> ((P', N, Some i, g2), Some e)
                       | (Inr Y, g2) \<Rightarrow> ((P', N[i := x + Y], Some i, g2), None)))))"

text \<open>
  \<open>P = np.zeros(niter)\<close>, \<open>N = np.zeros(niter)\<close>, \<open>P[0] = 0.5\<close>, \<open>N[0] = 2*x\<close>, then the loop.
\<close>

definition gibbs_run ::
  "int \<Rightarrow> real \<Rightarrow> real \<Rightarrow> real \<Rightarrow> nat \<Rightarrow> 'g random_source \<Rightarrow> 'g \<Rightarrow>
     'g gibbs_state \<times> error option" where
  "gibbs_run x l a b niter rs g =
     (let P = replicate niter 0; N = replicate niter 0
      in if niter = 0 then ((P, N, None, g), Some IndexError)
         else for_loop (gibbs_iter x l a b rs) [1..<niter] (P[0 := 1 / 2], N[0 := 2 * x], None, g))"

text \<open>
  The systematic scan as the text of the notebook and the specification describe it: the
  second component is drawn given the value of the first component drawn in the same
  step. This definition follows the text, not the code; it differs from \<open>gibbs_iter\<close> in
  the index of \<open>P\<close> read by the second draw.
\<close>

definition spec_gibbs_iter ::
  "int \<Rightarrow> real \<Rightarrow> real \<Rightarrow> real \<Rightarrow> 'g random_source \<Rightarrow> nat \<Rightarrow>
     'g gibbs_state \<Rightarrow> 'g gibbs_state \<times> error option" where
  "spec_gibbs_iter x l a b rs i s =
     (case s of (P, N, _, g) \<Rightarrow>
        if length P \<le> i \<or> length N \<le> i then ((P, N, Some i, g), Some IndexError)
        else (case beta_draw rs (of_int x + a) (of_int (at_prev N i - x) + b) g of
                (Inl e, g1) \<Rightarrow> ((P, N, Some i, g1), Some e)
              | (Inr p, g1) \<Rightarrow>
                  (let P' = P[i := p]
                   in (case poisson_draw rs (l * (1 - P' ! i)) g1 of
                         (Inl e, g2) \<Rightarrow> ((P', N, Some i, g2), Some e)
                       | (Inr Y, g2) \<Rightarrow> ((P', N[i := x + Y], Some i, g2), None)))))"

definition spec_gibbs_run ::
  "int \<Rightarrow> real \<Rightarrow> real \<Rightarrow> real \<Rightarrow> nat \<Rightarrow> 'g random_source \<Rightarrow> 'g \<Rightarrow>
     'g gibbs_state \<times> error option" where
  "spec_gibbs_run x l a b niter rs g =
     (let P = replicate niter 0; N = replicate niter 0
      in if niter = 0 then ((P, N, None, g), Some IndexError)
         else for_loop (spec_gibbs_iter x l a b rs) [1..<niter] (P[0 := 1 / 2], N[0 := 2 * x], None, g))"

section \<open>What a run leaves behind\<close>





section \<open>Assumptions on the samplers, and a source to run the loops with\<close>

text \<open>
  What the proofs use of the library's samplers: a Beta draw lies in the unit interval and
  a Poisson draw is not negative, for parameters that pass the argument check.
\<close>

definition beta_in_unit :: "'g random_source \<Rightarrow> bool" where
  "beta_in_unit rs \<longleftrightarrow>
     (\<forall>a b g. 0 < a \<longrightarrow> 0 < b \<longrightarrow> 0 \<le> fst (beta_rvs rs a b g) \<and> fst (beta_rvs rs a b g) \<le> 1)"



text \<open>
  A deterministic source for running the loops on concrete inputs. The generator state
  is a counter that every draw advances; the draws depend on the parameters and on the
  counter, the coin accepts whenever the probability is positive.
\<close>

definition counter_source :: "nat random_source" where
  "counter_source =
     \<lparr> norm_rvs = (\<lambda>scale g. (scale * of_nat g, Suc g)),
       binom_rvs = (\<lambda>p g. (if 0 < p then 1 else 0, Suc g)),
       beta_rvs = (\<lambda>a b g. (a / (a + b + of_nat g), Suc g)),
       poisson_rvs = (\<lambda>mu g. (\<lfloor>mu\<rfloor> + int g, Suc g)) \<rparr>"



section \<open>Properties of the acceptance probability\<close>

lemma norm_pdf_pos: "0 < scale \<Longrightarrow> 0 < norm_pdf x loc scale"
  by (simp add: norm_pdf_def)

lemma mh_ratio_unfold:
  "mh_ratio y sigma mu tau theta_prev theta_new =
     norm_pdf y theta_new sigma * norm_pdf theta_new mu tau /
       (norm_pdf y theta_prev sigma * norm_pdf theta_prev mu tau)"
  by (simp add: mh_ratio_def r_expr_def)

lemma mh_accept_unfold:
  "mh_accept y sigma mu tau theta_prev theta_new =
     min (mh_ratio y sigma mu tau theta_prev theta_new) 1"
  by (simp add: mh_accept_def accept_expr_def mh_ratio_def)

lemma mh_ratio_pos:
  assumes "0 < sigma" and "0 < tau"
  shows "0 < mh_ratio y sigma mu tau theta_prev theta_new"
  unfolding mh_ratio_unfold using assms
  by (intro divide_pos_pos mult_pos_pos norm_pdf_pos)

lemma mh_accept_bounds:
  assumes "0 < sigma" and "0 < tau"
  shows "0 < mh_accept y sigma mu tau theta_prev theta_new"
    and "mh_accept y sigma mu tau theta_prev theta_new \<le> 1"
  using mh_ratio_pos [OF assms, of y mu theta_prev theta_new]
  by (simp_all add: mh_accept_unfold)

lemma divide_divide_eq_right_cancel:
  fixes a b c :: real
  assumes "c \<noteq> 0"
  shows "(a / c) / (b / c) = a / b"
  using assms by simp

lemma norm_pdf_kernel:
  assumes "scale \<noteq> 0"
  shows "norm_pdf x loc scale = exp (- (x - loc)\<^sup>2 / (2 * scale\<^sup>2)) / (sqrt (2 * pi) * scale)"
  using assms by (simp add: norm_pdf_def power_divide)

lemma spec_target_density_pos: "0 < spec_target_density y sigma mu tau theta"
  by (simp add: spec_target_density_def)

lemma spec_proposal_density_pos: "0 < d \<Longrightarrow> 0 < spec_proposal_density d x x'"
  by (simp add: spec_proposal_density_def)

lemma spec_proposal_density_sym: "spec_proposal_density d x x' = spec_proposal_density d x' x"
  by (simp add: spec_proposal_density_def power2_commute)

lemma code_density_is_scaled_target:
  assumes "0 < sigma" and "0 < tau"
  shows "norm_pdf y theta sigma * norm_pdf theta mu tau =
           spec_target_density y sigma mu tau theta / (2 * pi * sigma * tau)"
proof -
  have "sqrt (2 * pi) * sqrt (2 * pi) = 2 * pi" by simp
  then show ?thesis
    using assms by (simp add: norm_pdf_kernel spec_target_density_def field_simps)
qed

lemma mh_ratio_is_target_ratio:
  assumes "0 < sigma" and "0 < tau"
  shows "mh_ratio y sigma mu tau x x' =
           spec_target_density y sigma mu tau x' / spec_target_density y sigma mu tau x"
proof -
  have "2 * pi * sigma * tau \<noteq> 0" using assms by simp
  then show ?thesis
    unfolding mh_ratio_unfold code_density_is_scaled_target [OF assms]
    by (rule divide_divide_eq_right_cancel)
qed

lemma full_ratio_cancels:
  assumes "0 < d"
  shows "spec_target_density y sigma mu tau x' * spec_proposal_density d x' x /
           (spec_target_density y sigma mu tau x * spec_proposal_density d x x') =
         spec_target_density y sigma mu tau x' / spec_target_density y sigma mu tau x"
proof -
  have "spec_proposal_density d x x' \<noteq> 0"
    using spec_proposal_density_pos [OF assms, of x x'] by simp
  then show ?thesis
    by (simp add: spec_proposal_density_sym [of d x' x])
qed

lemma exp_spec_log_r:
  assumes "0 < d"
  shows "exp (spec_log_r y sigma mu tau d x x') =
         spec_target_density y sigma mu tau x' / spec_target_density y sigma mu tau x"
proof -
  have "spec_log_r y sigma mu tau d x x' =
          ln (spec_target_density y sigma mu tau x') - ln (spec_target_density y sigma mu tau x)"
    by (simp add: spec_log_r_def spec_log_density_def spec_proposal_density_sym [of d x' x])
  then show ?thesis
    by (simp add: exp_diff spec_target_density_pos)
qed

section \<open>Loops: composition and invariants\<close>

lemma for_loop_append:
  "for_loop body (xs @ ys) s =
     (case for_loop body xs s of
        (s', None) \<Rightarrow> for_loop body ys s'
      | (s', Some e) \<Rightarrow> (s', Some e))"
  by (induction xs arbitrary: s) (auto split: prod.splits option.splits)

lemma for_loop_upt_Suc:
  assumes "m \<le> n"
  shows "for_loop body [m..<Suc n] s =
     (case for_loop body [m..<n] s of
        (s', None) \<Rightarrow> body n s'
      | (s', Some e) \<Rightarrow> (s', Some e))"
  using assms by (auto simp: for_loop_append split: prod.splits option.splits)

lemma for_loop_upt_rule:
  assumes init: "I m s" and le: "m \<le> n"
    and step: "\<And>k t t' r. m \<le> k \<Longrightarrow> k < n \<Longrightarrow> I k t \<Longrightarrow> body k t = (t', r) \<Longrightarrow>
                 (case r of None \<Rightarrow> I (Suc k) t' | Some err \<Rightarrow> F k t' err)"
    and res: "for_loop body [m..<n] s = (s', e)"
  shows "case e of None \<Rightarrow> I n s' | Some err \<Rightarrow> (\<exists>k. m \<le> k \<and> k < n \<and> F k s' err)"
  using le step res
proof (induction n arbitrary: s' e)
  case 0
  with init show ?case by simp
next
  case (Suc n)
  show ?case
  proof (cases "m \<le> n")
    case False
    with Suc.prems(1) have "m = Suc n" by simp
    with Suc.prems(3) init show ?thesis by simp
  next
    case True
    obtain t r where pre: "for_loop body [m..<n] s = (t, r)" by (cases "for_loop body [m..<n] s")
    have step': "\<And>k t t' r. m \<le> k \<Longrightarrow> k < n \<Longrightarrow> I k t \<Longrightarrow> body k t = (t', r) \<Longrightarrow>
                 (case r of None \<Rightarrow> I (Suc k) t' | Some err \<Rightarrow> F k t' err)"
      using Suc.prems(2) by (meson less_Suc_eq)
    have ih: "case r of None \<Rightarrow> I n t | Some err \<Rightarrow> (\<exists>k. m \<le> k \<and> k < n \<and> F k t err)"
      by (rule Suc.IH [OF True step' pre])
    show ?thesis
    proof (cases r)
      case (Some err)
      from Suc.prems(3) have "s' = t" "e = Some err"
        unfolding for_loop_upt_Suc [OF True] pre Some by simp_all
      with ih Some show ?thesis by (auto simp: less_Suc_eq)
    next
      case None
      from Suc.prems(3) have last: "body n t = (s', e)"
        unfolding for_loop_upt_Suc [OF True] pre None by simp
      from ih None have "I n t" by simp
      from Suc.prems(2) [OF True _ this last]
      have "case e of None \<Rightarrow> I (Suc n) s' | Some err \<Rightarrow> F n s' err" by simp
      with True show ?thesis by (auto split: option.splits)
    qed
  qed
qed



section \<open>The Metropolis-Hastings run as iterated transitions\<close>

lemma mh_step_valid:
  assumes "0 < sigma" and "0 < tau" and "0 < d"
  shows "mh_step y sigma mu tau d rs theta_prev g =
           (Inr (fst (mh_transition y sigma mu tau d rs (theta_prev, g))),
            snd (mh_transition y sigma mu tau d rs (theta_prev, g)))"
proof -
  have "\<not> mh_accept y sigma mu tau theta_prev v < 0" "\<not> 1 < mh_accept y sigma mu tau theta_prev v" for v
    using mh_accept_bounds [OF assms(1,2), of y mu theta_prev v] by simp_all
  then show ?thesis
    using assms(3)
    by (simp add: mh_step_def mh_transition_def norm_draw_def binom_draw_def Let_def
        split: prod.splits)
qed

lemma mh_iter_valid:
  assumes "0 < sigma" and "0 < tau" and "0 < d" and "1 \<le> i" and "i < length Theta"
  shows "mh_iter y sigma mu tau d rs i (Theta, g) =
           ((Theta[i := fst (mh_transition y sigma mu tau d rs (Theta ! (i - 1), g))],
             snd (mh_transition y sigma mu tau d rs (Theta ! (i - 1), g))), None)"
  using assms(4,5) by (simp add: mh_iter_def mh_step_valid [OF assms(1-3)] at_prev_def)

lemma mh_chain_0: "mh_chain y sigma mu tau d rs g 0 = (y, g)"
  by (simp add: mh_chain_def)

lemma mh_chain_Suc:
  "mh_chain y sigma mu tau d rs g (Suc k) =
     mh_transition y sigma mu tau d rs (mh_chain y sigma mu tau d rs g k)"
  by (simp add: mh_chain_def)

lemma mh_loop_closed_form:
  assumes valid: "0 < sigma" "0 < tau" "0 < d"
    and len: "length Theta0 = niter" and y: "Theta0 ! 0 = y"
    and n: "1 \<le> n" "n \<le> niter"
  shows "for_loop (mh_iter y sigma mu tau d rs) [1..<n] (Theta0, g) =
           ((map (\<lambda>k. fst (mh_chain y sigma mu tau d rs g k)) [0..<n] @ drop n Theta0,
             snd (mh_chain y sigma mu tau d rs g (n - 1))), None)"
  using n
proof (induction n)
  case 0
  then show ?case by simp
next
  case (Suc n)
  show ?case
  proof (cases "n = 0")
    case True
    have "Theta0 \<noteq> []" using len Suc.prems by auto
    then have "Theta0 = Theta0 ! 0 # drop 1 Theta0"
      by (cases Theta0) simp_all
    with True y show ?thesis
      by (simp add: mh_chain_0)
  next
    case False
    then have n1: "1 \<le> n" and nlt: "n < niter" using Suc.prems by simp_all
    let ?f = "\<lambda>k. fst (mh_chain y sigma mu tau d rs g k)"
    let ?Th = "map ?f [0..<n] @ drop n Theta0"
    have ih: "for_loop (mh_iter y sigma mu tau d rs) [1..<n] (Theta0, g) =
                ((?Th, snd (mh_chain y sigma mu tau d rs g (n - 1))), None)"
      using Suc.IH n1 nlt by simp
    have lenTh: "length ?Th = niter" using len nlt by simp
    have prev: "?Th ! (n - 1) = ?f (n - 1)"
      using n1 by (simp add: nth_append)
    have pair: "(?Th ! (n - 1), snd (mh_chain y sigma mu tau d rs g (n - 1))) =
                  mh_chain y sigma mu tau d rs g (n - 1)"
      unfolding prev by simp
    have next_eq: "mh_transition y sigma mu tau d rs (mh_chain y sigma mu tau d rs g (n - 1)) =
                     mh_chain y sigma mu tau d rs g n"
      using n1 mh_chain_Suc [of y sigma mu tau d rs g "n - 1"] by simp
    have upd: "?Th[n := v] = map ?f [0..<n] @ v # drop (Suc n) Theta0" for v
    proof -
      have "drop n Theta0 = Theta0 ! n # drop (Suc n) Theta0"
        using nlt len by (simp add: Cons_nth_drop_Suc)
      then show ?thesis by (simp add: list_update_append)
    qed
    have "for_loop (mh_iter y sigma mu tau d rs) [1..<Suc n] (Theta0, g) =
            mh_iter y sigma mu tau d rs n (?Th, snd (mh_chain y sigma mu tau d rs g (n - 1)))"
      unfolding for_loop_upt_Suc [OF n1] ih by simp
    also have "\<dots> = ((?Th[n := ?f n], snd (mh_chain y sigma mu tau d rs g n)), None)"
      using mh_iter_valid [OF valid n1, of ?Th y mu rs "snd (mh_chain y sigma mu tau d rs g (n - 1))"]
        lenTh nlt
      by (simp only: pair next_eq)
    finally show ?thesis
      by (simp add: upd)
  qed
qed

lemma mh_run_closed_form:
  assumes valid: "0 < sigma" "0 < tau" "0 < d" and n: "0 < niter"
  shows "mh_run y sigma mu tau d niter rs g =
           ((map (\<lambda>k. fst (mh_chain y sigma mu tau d rs g k)) [0..<niter],
             snd (mh_chain y sigma mu tau d rs g (niter - 1))), None)"
proof -
  let ?Theta0 = "(replicate niter (0::real))[0 := y]"
  have "for_loop (mh_iter y sigma mu tau d rs) [1..<niter] (?Theta0, g) =
           ((map (\<lambda>k. fst (mh_chain y sigma mu tau d rs g k)) [0..<niter] @ drop niter ?Theta0,
             snd (mh_chain y sigma mu tau d rs g (niter - 1))), None)"
    using n by (intro mh_loop_closed_form [OF valid, where niter = niter]) simp_all
  then show ?thesis
    using n by (simp add: mh_run_def)
qed

section \<open>The Gibbs loop: one iteration and the invariant of the first component\<close>

lemma at_prev_nth: "1 \<le> i \<Longrightarrow> at_prev A i = A ! (i - 1)"
  by (simp add: at_prev_def)

lemma at_prev_in_set: "i < length A \<Longrightarrow> at_prev A i \<in> set A"
  by (cases "i = 0") (auto simp: at_prev_def intro: last_in_set)

lemma gibbs_iter_result:
  assumes "i < length P" and "i < length N"
    and "gibbs_iter x l a b rs i (P, N, iv, g) = ((P', N', iv', g'), e)"
  shows "iv' = Some i \<and> length P' = length P \<and> length N' = length N \<and>
     (case e of
        None \<Rightarrow>
          0 < of_int x + a \<and> 0 < of_int (at_prev N i - x) + b
          \<and> P' = P[i := fst (beta_rvs rs (of_int x + a) (of_int (at_prev N i - x) + b) g)]
          \<and> 0 \<le> l * (1 - at_prev P' i)
          \<and> N' = N[i := x + fst (poisson_rvs rs (l * (1 - at_prev P' i))
                                   (snd (beta_rvs rs (of_int x + a) (of_int (at_prev N i - x) + b) g)))]
      | Some err \<Rightarrow>
          N' = N \<and>
          (err = InvalidParameter Beta \<and> P' = P
           \<or> err = InvalidParameter Poisson
             \<and> 0 < of_int x + a \<and> 0 < of_int (at_prev N i - x) + b
             \<and> P' = P[i := fst (beta_rvs rs (of_int x + a) (of_int (at_prev N i - x) + b) g)]
             \<and> l * (1 - at_prev P' i) < 0))"
  using assms
  by (auto simp: gibbs_iter_def beta_draw_def poisson_draw_def Let_def
      split: if_splits prod.splits sum.splits)

lemma gibbs_run_unfold:
  assumes "0 < niter"
  shows "gibbs_run x l a b niter rs g =
           for_loop (gibbs_iter x l a b rs) [1..<niter]
             ((replicate niter 0)[0 := 1 / 2], (replicate niter 0)[0 := 2 * x], None, g)"
  using assms by (simp add: gibbs_run_def)

lemma gibbs_run_empty:
  "gibbs_run x l a b 0 rs g = (([], [], None, g), Some IndexError)"
  by (simp add: gibbs_run_def)

lemma set_update_unit:
  fixes P :: "real list"
  assumes "\<forall>p\<in>set P. 0 \<le> p \<and> p \<le> 1" and "0 \<le> v" and "v \<le> 1"
  shows "\<forall>p\<in>set (P[i := v]). 0 \<le> p \<and> p \<le> 1"
  using assms set_update_subset_insert [of P i v] by auto

lemma gibbs_P_invariant:
  assumes beta: "beta_in_unit rs" and l: "0 \<le> l"
    and run: "gibbs_run x l a b niter rs g = ((P, N, i, g'), e)"
  shows "length P = niter \<and> (0 < niter \<longrightarrow> P ! 0 = 1 / 2)
       \<and> (\<forall>p\<in>set P. 0 \<le> p \<and> p \<le> 1) \<and> e \<noteq> Some (InvalidParameter Poisson)"
proof (cases "niter = 0")
  case True
  with run show ?thesis by (auto simp: gibbs_run_empty)
next
  case False
  define I :: "nat \<Rightarrow> 'a gibbs_state \<Rightarrow> bool" where
    "I = (\<lambda>k s. case s of (P, N, i, g) \<Rightarrow>
            length P = niter \<and> length N = niter \<and> P ! 0 = 1 / 2
            \<and> (\<forall>p\<in>set P. 0 \<le> p \<and> p \<le> 1))"
  define F :: "nat \<Rightarrow> 'a gibbs_state \<Rightarrow> error \<Rightarrow> bool" where
    "F = (\<lambda>k s err. I k s \<and> err \<noteq> InvalidParameter Poisson)"
  let ?s0 = "((replicate niter 0)[0 := 1 / 2], (replicate niter 0)[0 := 2 * x], None, g)"
  have loop: "for_loop (gibbs_iter x l a b rs) [1..<niter] ?s0 = ((P, N, i, g'), e)"
    using run False by (simp add: gibbs_run_unfold)
  have init: "I 1 ?s0"
    using set_update_unit [of "replicate niter 0" "1 / 2" 0] False by (simp add: I_def)
  have step: "case r of None \<Rightarrow> I (Suc k) t' | Some err \<Rightarrow> F k t' err"
    if "1 \<le> k" "k < niter" "I k t" "gibbs_iter x l a b rs k t = (t', r)" for k t t' r
  proof -
    obtain P1 N1 i1 g1 where t: "t = (P1, N1, i1, g1)" by (cases t) auto
    obtain P2 N2 i2 g2 where t': "t' = (P2, N2, i2, g2)" by (cases t') auto
    from that(3) have len: "length P1 = niter" "length N1 = niter"
      and unit: "\<forall>p\<in>set P1. 0 \<le> p \<and> p \<le> 1" and P0: "P1 ! 0 = 1 / 2"
      by (simp_all add: I_def t)
    note res = gibbs_iter_result [OF _ _ that(4) [unfolded t t'], unfolded len, OF that(2) that(2)]
    let ?p = "fst (beta_rvs rs (of_int x + a) (of_int (at_prev N1 k - x) + b) g1)"
    have drawn: "\<forall>p\<in>set (P1[k := ?p]). 0 \<le> p \<and> p \<le> 1"
      if "0 < of_int x + a" "0 < of_int (at_prev N1 k - x) + b"
      using beta that by (intro set_update_unit unit) (simp_all add: beta_in_unit_def)
    have rate: "0 \<le> l * (1 - at_prev (P1[k := ?p]) k)"
      if "0 < of_int x + a" "0 < of_int (at_prev N1 k - x) + b"
    proof -
      have "at_prev (P1[k := ?p]) k \<in> set (P1[k := ?p])"
        using \<open>k < niter\<close> len by (intro at_prev_in_set) simp
      with drawn [OF that] have "at_prev (P1[k := ?p]) k \<le> 1" by blast
      with l show ?thesis by simp
    qed
    show ?thesis
    proof (cases r)
      case None
      with res drawn P0 that(1) show ?thesis
        by (simp add: I_def t' len)
    next
      case (Some err)
      with res drawn rate unit P0 that(1) show ?thesis
        by (auto simp: F_def I_def t' len)
    qed
  qed
  have "case e of None \<Rightarrow> I niter (P, N, i, g')
        | Some err \<Rightarrow> (\<exists>k. 1 \<le> k \<and> k < niter \<and> F k (P, N, i, g') err)"
    using for_loop_upt_rule [of I 1 ?s0 niter "gibbs_iter x l a b rs" F "(P, N, i, g')" e,
        OF init _ step loop] False
    by simp
  then show ?thesis
    by (auto simp: I_def F_def split: option.splits)
qed

section \<open>The Gibbs loop: how a run ends\<close>



section \<open>Runs on sources that return the same draws\<close>







section \<open>Runs on the counter source\<close>

lemmas gibbs_eval =
  gibbs_run_def gibbs_iter_def beta_draw_def poisson_draw_def counter_source_def at_prev_def
  upt_rec eval_nat_numeral

lemma counter_source_beta_in_unit: "beta_in_unit counter_source"
  by (simp add: beta_in_unit_def counter_source_def)


lemma gibbs_run_example:
  "gibbs_run 7 10 1 1 3 counter_source 0 =
     (([1 / 2, 1 / 2, 8 / 17], [14, 13, 15], Some 2, 4), None)"
  by (simp add: gibbs_eval)




lemma gibbs_run_from_4:
  "gibbs_run 7 10 1 1 2 counter_source 4 = (([1 / 2, 2 / 5], [14, 17], Some 1, 6), None)"
  by (simp add: gibbs_eval)

lemma spec_gibbs_run_from_4:
  "spec_gibbs_run 7 10 1 1 2 counter_source 4 = (([1 / 2, 2 / 5], [14, 18], Some 1, 6), None)"
  by (simp add: spec_gibbs_run_def spec_gibbs_iter_def gibbs_eval)



lemma mh_run_counter_source:
  "mh_run 3 1 0 2 1 3 counter_source 0 = (([3, 3, 5], 4), None)"
  by (simp add: mh_run_closed_form mh_chain_def mh_transition_def counter_source_def
      mh_accept_bounds eval_nat_numeral upt_rec)


section \<open>Claims about the Metropolis-Hastings sampler\<close>

text \<open>
  Claim C1 states that the sampler computes the acceptance probability in log-space and
  never as a direct quotient of densities. The source line divides one product of
  densities by another and takes no logarithm: the claim fails on the term of the
  source, here at the first transition of the notebook's configuration with candidate 4.
\<close>

theorem acceptance_is_direct_quotient:
  "density_quotient (accept_expr 3 1 0 2 3 4) \<and> \<not> log_domain (accept_expr 3 1 0 2 3 4)"
  by (simp add: accept_expr_def r_expr_def)

text \<open>
  Claim C1, amended. The sampler computes the ratio \<open>r\<close> as a direct quotient of
  densities and the acceptance probability as \<open>min(r, 1)\<close>. Over the reals, for positive
  \<open>sigma\<close>, \<open>tau\<close> and \<open>d\<close>, this value equals \<open>min(1, exp(log_r))\<close> with
  \<open>log_r = [log s(candidate) + log_density(candidate, current)]
          - [log s(current) + log_density(current, candidate)]\<close>.
\<close>

theorem direct_ratio_equals_log_form:
  assumes "0 < sigma" and "0 < tau" and "0 < d"
  shows "mh_accept y sigma mu tau theta_prev theta_new =
           spec_acceptance_log y sigma mu tau d theta_prev theta_new"
  using assms
  by (simp add: mh_accept_unfold spec_acceptance_log_def mh_ratio_is_target_ratio exp_spec_log_r
      min.commute)


theorem direct_ratio_equals_log_form_witness:
  "(0::real) < 1 \<and> (0::real) < 2 \<and> (0::real) < 1
   \<and> mh_accept 3 1 0 2 3 4 = spec_acceptance_log 3 1 0 2 1 3 4"
  using direct_ratio_equals_log_form [of 1 2 1 3 0 3 4] by simp

text \<open>
  Claim C5. The proposal of the loop is the random walk \<open>theta_new = Theta[i-1] + \<epsilon>\<close>
  with \<open>\<epsilon>\<close> Normal with mean 0 and standard deviation \<open>d\<close>. Its density is symmetric,
  so its logarithm is too, and the probability \<open>min(r, 1)\<close> that the code computes from
  the ratio of the target densities alone equals the full Metropolis-Hastings acceptance
  probability \<open>min(s(x') p(x', x) / (s(x) p(x, x')), 1)\<close>: the two proposal densities
  cancel.
\<close>

theorem symmetric_kernel_cancels:
  assumes "0 < sigma" and "0 < tau" and "0 < d"
  shows "spec_log_density d x x' = spec_log_density d x' x
       \<and> mh_accept y sigma mu tau x x' = spec_acceptance_full y sigma mu tau d x x'"
proof
  show "spec_log_density d x x' = spec_log_density d x' x"
    by (simp add: spec_log_density_def spec_proposal_density_sym [of d x' x])
  show "mh_accept y sigma mu tau x x' = spec_acceptance_full y sigma mu tau d x x'"
    unfolding mh_accept_unfold spec_acceptance_full_def
      mh_ratio_is_target_ratio [OF assms(1,2)] full_ratio_cancels [OF assms(3)] ..
qed


theorem symmetric_kernel_cancels_witness:
  "(0::real) < 1 \<and> (0::real) < 2 \<and> (0::real) < 1
   \<and> spec_log_density 1 3 4 = spec_log_density 1 4 3
   \<and> mh_accept 3 1 0 2 3 4 = spec_acceptance_full 3 1 0 2 1 3 4"
  using symmetric_kernel_cancels [of 1 2 1 3 4 3 0] by simp



text \<open>
  Claim C7. In every step of a run, with \<open>eps\<close> the proposal draw made from the generator
  state of that step and \<open>flip\<close> the coin drawn with the acceptance probability of the
  candidate \<open>Theta[k] + eps\<close>: when the flip is 1 the next chain state is the candidate,
  otherwise it is equal to the chain state at the previous index. The chain is an array
  of numbers, for which equality of values is the only notion of identity.
\<close>

theorem mh_accept_or_stay:
  assumes "0 < sigma" and "0 < tau" and "0 < d" and k: "Suc k < niter"
    and run: "mh_run y sigma mu tau d niter rs g = ((Theta, g'), e)"
    and cand: "norm_rvs rs d (snd (mh_chain y sigma mu tau d rs g k)) = (eps, g1)"
    and coin: "binom_rvs rs (mh_accept y sigma mu tau (Theta ! k) (Theta ! k + eps)) g1 = (flip, g2)"
  shows "(flip = 1 \<longrightarrow> Theta ! Suc k = Theta ! k + eps)
       \<and> (flip \<noteq> 1 \<longrightarrow> Theta ! Suc k = Theta ! k)"
proof -
  have n: "0 < niter" using k by simp
  have Theta: "Theta = map (\<lambda>k. fst (mh_chain y sigma mu tau d rs g k)) [0..<niter]"
    using run mh_run_closed_form [OF assms(1-3) n, of y mu rs g] by simp
  have at_k: "Theta ! k = fst (mh_chain y sigma mu tau d rs g k)"
    and at_Suc: "Theta ! Suc k = fst (mh_chain y sigma mu tau d rs g (Suc k))"
    using k by (simp_all add: Theta)
  have "mh_chain y sigma mu tau d rs g k = (Theta ! k, snd (mh_chain y sigma mu tau d rs g k))"
    by (simp add: at_k)
  then have "mh_chain y sigma mu tau d rs g (Suc k) =
               mh_transition y sigma mu tau d rs (Theta ! k, snd (mh_chain y sigma mu tau d rs g k))"
    by (simp add: mh_chain_Suc)
  also have "\<dots> = (if flip = 1 then Theta ! k + eps else Theta ! k, g2)"
    by (simp add: mh_transition_def cand coin)
  finally show ?thesis
    by (simp add: at_Suc)
qed

theorem mh_accept_or_stay_witness:
  "(0::real) < 1 \<and> (0::real) < 2 \<and> (0::real) < 1 \<and> Suc 1 < (3::nat)
   \<and> mh_run 3 1 0 2 1 3 counter_source 0 = (([3, 3, 5], 4), None)
   \<and> norm_rvs counter_source 1 (snd (mh_chain 3 1 0 2 1 counter_source 0 1)) = (2, 3)
   \<and> binom_rvs counter_source (mh_accept 3 1 0 2 ([3, 3, 5] ! 1) ([3, 3, 5] ! 1 + 2)) 3 = (1, 4)
   \<and> [3, 3, 5] ! Suc 1 = [3, 3, 5] ! 1 + (2::real)"
proof -
  have run: "mh_run 3 1 0 2 1 3 counter_source 0 = (([3, 3, 5], 4), None)"
    by (rule mh_run_counter_source)
  have cand: "norm_rvs counter_source 1 (snd (mh_chain 3 1 0 2 1 counter_source 0 1)) = (2, 3)"
    by (simp add: mh_chain_def mh_transition_def counter_source_def mh_accept_bounds)
  have coin: "binom_rvs counter_source (mh_accept 3 1 0 2 ([3, 3, 5] ! 1) ([3, 3, 5] ! 1 + 2)) 3 = (1, 4)"
    by (simp add: counter_source_def mh_accept_bounds)
  show ?thesis
    using mh_accept_or_stay [OF _ _ _ _ run cand coin] run cand coin by simp
qed



section \<open>Claims about the Gibbs sampler and about the random source\<close>

text \<open>
  Claim C2 asks that the draw of \<open>N\<close> at iteration \<open>i\<close> is conditioned on the value of
  \<open>p\<close> drawn at iteration \<open>i\<close>, as the notebook's own description of the systematic
  scan does. The loop reads \<open>P[i-1]\<close>. On the notebook's constants, with two iterations
  and the counter source started at 4, the Beta draw of iteration 1 is \<open>2/5\<close>; the code
  draws \<open>N[1]\<close> with rate \<open>10 (1 - 1/2) = 5\<close> and stores 17, where the rate
  \<open>10 (1 - 2/5) = 6\<close> of the systematic scan gives 18.
\<close>

theorem gibbs_second_draw_reads_previous_p:
  "gibbs_run 7 10 1 1 2 counter_source 4 = (([1 / 2, 2 / 5], [14, 17], Some 1, 6), None)
   \<and> spec_gibbs_run 7 10 1 1 2 counter_source 4 = (([1 / 2, 2 / 5], [14, 18], Some 1, 6), None)"
  by (simp add: gibbs_run_from_4 spec_gibbs_run_from_4)



text \<open>
  Claim C10. With Beta draws in the unit interval and \<open>0 \<le> l\<close>, every entry of \<open>P\<close> lies
  in \<open>[0, 1]\<close>, starting from \<open>P[0] = 1/2\<close>; so every rate \<open>l (1 - P[k])\<close> lies in
  \<open>[0, l]\<close>, and whatever the outcome of the run, it is not the rejection of a Poisson
  rate.
\<close>

theorem gibbs_poisson_rate_valid:
  assumes "beta_in_unit rs" and l: "0 \<le> l"
    and "gibbs_run x l a b niter rs g = ((P, N, i, g'), e)"
  shows "length P = niter \<and> (0 < niter \<longrightarrow> P ! 0 = 1 / 2)
       \<and> (\<forall>k<niter. 0 \<le> P ! k \<and> P ! k \<le> 1 \<and> 0 \<le> l * (1 - P ! k) \<and> l * (1 - P ! k) \<le> l)
       \<and> e \<noteq> Some (InvalidParameter Poisson)"
proof -
  from gibbs_P_invariant [OF assms]
  have len: "length P = niter" and P0: "0 < niter \<longrightarrow> P ! 0 = 1 / 2"
    and unit: "\<forall>p\<in>set P. 0 \<le> p \<and> p \<le> 1" and e: "e \<noteq> Some (InvalidParameter Poisson)"
    by simp_all
  have "0 \<le> P ! k \<and> P ! k \<le> 1 \<and> 0 \<le> l * (1 - P ! k) \<and> l * (1 - P ! k) \<le> l" if "k < niter" for k
  proof -
    from that len unit have p: "0 \<le> P ! k" "P ! k \<le> 1" by simp_all
    then have "0 \<le> l * (1 - P ! k)" using l by simp
    moreover have "l * (1 - P ! k) \<le> l * 1"
      using l p by (intro mult_left_mono) simp_all
    ultimately show ?thesis using p by simp
  qed
  with len P0 e show ?thesis by blast
qed

theorem gibbs_poisson_rate_valid_witness:
  "beta_in_unit counter_source \<and> (0::real) \<le> 10
   \<and> gibbs_run 7 10 1 1 3 counter_source 0 = (([1 / 2, 1 / 2, 8 / 17], [14, 13, 15], Some 2, 4), None)
   \<and> length [1 / 2, 1 / 2, 8 / 17 :: real] = 3 \<and> [1 / 2, 1 / 2, 8 / 17 :: real] ! 0 = 1 / 2
   \<and> 0 \<le> [1 / 2, 1 / 2, 8 / 17 :: real] ! 2 \<and> [1 / 2, 1 / 2, 8 / 17 :: real] ! 2 \<le> 1
   \<and> 0 \<le> 10 * (1 - [1 / 2, 1 / 2, 8 / 17 :: real] ! 2)
   \<and> 10 * (1 - [1 / 2, 1 / 2, 8 / 17 :: real] ! 2) \<le> 10
   \<and> (None :: error option) \<noteq> Some (InvalidParameter Poisson)"
proof -
  have l: "(0::real) \<le> 10" by simp
  have k: "(2::nat) < 3" by simp
  from gibbs_poisson_rate_valid [OF counter_source_beta_in_unit l gibbs_run_example] k
    counter_source_beta_in_unit l gibbs_run_example
  show ?thesis by simp
qed







end
